theory Spec2Isabelle
  imports Complex_Main "HOL-Library.Product_Lexorder"
begin

section \<open>Pallet calculator: data model\<close>

text \<open>
  The embedding follows \<^verbatim>\<open>pallet_calc/calculator.py\<close>. Python floats are modelled as exact
  rationals (\<^typ>\<open>rat\<close>), Python integers as \<^typ>\<open>int\<close>, and every exception the code
  can raise is a value of \<open>error\<close>: a function that may raise returns \<open>error + 'a\<close>.
\<close>

subsection \<open>Raw input values\<close>

text \<open>
  The values found in the numeric fields of a raw record: JSON null, an integer, a
  non-integer number, or an array. \<^verbatim>\<open>float(v)\<close> and \<^verbatim>\<open>int(v)\<close> raise TypeError on null
  and on arrays; \<^verbatim>\<open>int\<close> truncates a float toward zero. Numeric strings are not part of
  the modelled input domain.
\<close>

datatype pyval = PNone | PInt int | PFloat rat | PList "pyval list"

text \<open>A raw product is a dictionary; a missing key is \<open>None\<close>. The name is kept as the
  string that \<^verbatim>\<open>str(raw["name"])\<close> yields.\<close>

record raw_product =
  raw_name :: "string option"
  raw_order_quantity_pcs :: "pyval option"
  raw_pcs_per_carton :: "pyval option"
  raw_carton_dimensions_cm :: "pyval option"

record raw_pallet =
  raw_length_cm :: "pyval option"
  raw_width_cm :: "pyval option"
  raw_height_cm :: "pyval option"
  raw_base_height_cm :: "pyval option"

subsection \<open>Errors\<close>

text \<open>The messages of the \<^verbatim>\<open>ValueError\<close>s the calculator raises itself.\<close>

datatype message =
    Invalid_product_specification raw_product
  | At_least_one_product
  | Invalid_pallet_specification
  | Pallet_dimensions_must_be_positive
  | Pallet_base_height_must_be_lower
  | Unsupported_container_height string
  | Pallet_exceeds_container_height
  | Cannot_fit_on_footprint string
  | Exceeds_stacking_height string
  | Cannot_be_placed string
  | Layer_height_exceeds_limit

datatype error =
    ValueError message
  | KeyError
  | TypeError
  | IndexError
  | ZeroDivisionError

fun bindE :: "error + 'a \<Rightarrow> ('a \<Rightarrow> error + 'b) \<Rightarrow> error + 'b" where
  "bindE (Inl e) f = Inl e"
| "bindE (Inr x) f = f x"

fun is_validation_error :: "error + 'a \<Rightarrow> bool" where
  "is_validation_error (Inl (ValueError m)) = True"
| "is_validation_error r = False"

subsection \<open>Python primitives\<close>

fun py_getitem :: "'a option \<Rightarrow> error + 'a" where
  "py_getitem None = Inl KeyError"
| "py_getitem (Some v) = Inr v"

fun py_index :: "pyval \<Rightarrow> nat \<Rightarrow> error + pyval" where
  "py_index (PList xs) i = (if i < length xs then Inr (xs ! i) else Inl IndexError)"
| "py_index v i = Inl TypeError"

fun py_float :: "pyval \<Rightarrow> error + rat" where
  "py_float (PInt i) = Inr (of_int i)"
| "py_float (PFloat r) = Inr r"
| "py_float v = Inl TypeError"

fun py_int :: "pyval \<Rightarrow> error + int" where
  "py_int (PInt i) = Inr i"
| "py_int (PFloat r) = Inr (if 0 \<le> r then \<lfloor>r\<rfloor> else \<lceil>r\<rceil>)"
| "py_int v = Inl TypeError"

text \<open>True division \<^verbatim>\<open>a / b\<close> raises on a zero divisor.\<close>

definition py_truediv :: "rat \<Rightarrow> rat \<Rightarrow> error + rat" where
  "py_truediv a b = (if b = 0 then Inl ZeroDivisionError else Inr (a / b))"

text \<open>\<^verbatim>\<open>sorted(xs, key=key, reverse=True)\<close>: a stable sort into descending key order.\<close>

fun insort_desc :: "('a \<Rightarrow> 'k::linorder) \<Rightarrow> 'a \<Rightarrow> 'a list \<Rightarrow> 'a list" where
  "insort_desc key x [] = [x]"
| "insort_desc key x (y # ys) =
     (if key y \<le> key x then x # y # ys else y # insort_desc key x ys)"

definition sorted_desc :: "('a \<Rightarrow> 'k::linorder) \<Rightarrow> 'a list \<Rightarrow> 'a list" where
  "sorted_desc key xs = foldr (insort_desc key) xs []"

subsection \<open>Value types\<close>

record ProductSpec =
  name :: string
  order_quantity_pcs :: int
  pcs_per_carton :: int
  carton_length_cm :: rat
  carton_width_cm :: rat
  carton_height_cm :: rat

definition cartons_required :: "ProductSpec \<Rightarrow> error + int" where
  "cartons_required p =
     bindE (py_truediv (of_int (order_quantity_pcs p)) (of_int (pcs_per_carton p)))
       (\<lambda>q. Inr \<lceil>q\<rceil>)"

definition carton_volume_cbm :: "ProductSpec \<Rightarrow> rat" where
  "carton_volume_cbm p =
     carton_length_cm p * carton_width_cm p * carton_height_cm p / 1000000"

record PalletSpec =
  length_cm :: rat
  width_cm :: rat
  height_cm :: rat
  base_height_cm :: rat

definition goods_height_limit :: "PalletSpec \<Rightarrow> rat \<Rightarrow> error + rat" where
  "goods_height_limit pal container_height_cm =
     (let limit = min (height_cm pal) container_height_cm - base_height_cm pal
      in if limit \<le> 0 then Inl (ValueError Pallet_exceeds_container_height)
         else Inr limit)"

record OrientationPlan =
  cartons_per_layer :: int
  cartons_along_length :: int
  cartons_along_width :: int
  plan_carton_length_cm :: rat
  plan_carton_width_cm :: rat

record ProductPlan =
  product :: ProductSpec
  orientation :: OrientationPlan
  layers_per_pallet :: int
  cartons_per_pallet :: int
  full_pallets :: int
  remainder_cartons :: int

definition plan_goods_height_cm :: "ProductPlan \<Rightarrow> rat" where
  "plan_goods_height_cm plan =
     of_int (layers_per_pallet plan) * carton_height_cm (product plan)"

record Layer =
  product_name :: string
  cartons :: int
  layer_height_cm :: rat

text \<open>\<open>cartons_by_product\<close> is a Python dictionary, kept in insertion order.\<close>

record PalletDetail =
  label :: string
  count :: int
  cartons_by_product :: "(string \<times> int) list"
  goods_height_cm :: rat
  total_height_cm :: rat

record CalculationInput =
  products :: "raw_product list"
  pallet :: raw_pallet
  allow_mixed_remainders :: bool
  container_height :: string

record CalculationResult =
  product_plans :: "ProductPlan list"
  pallets :: "PalletDetail list"
  total_cartons :: int
  total_pallets :: int
  volume_without_pallets_cbm :: rat
  volume_with_pallets_cbm :: rat

definition CUFT_PER_CBM :: rat where
  "CUFT_PER_CBM = 353146667 / 10000000"

definition volume_without_pallets_cuft :: "CalculationResult \<Rightarrow> rat" where
  "volume_without_pallets_cuft r = volume_without_pallets_cbm r * CUFT_PER_CBM"

definition volume_with_pallets_cuft :: "CalculationResult \<Rightarrow> rat" where
  "volume_with_pallets_cuft r = volume_with_pallets_cbm r * CUFT_PER_CBM"

section \<open>Input normalizer\<close>

text \<open>The body of the \<^verbatim>\<open>try\<close> block of \<^verbatim>\<open>_load_products\<close>, in evaluation order.\<close>

definition load_product_body :: "raw_product \<Rightarrow> error + ProductSpec" where
  "load_product_body raw =
     bindE (py_getitem (raw_carton_dimensions_cm raw)) (\<lambda>dims.
     bindE (py_index dims 0) (\<lambda>d0. bindE (py_float d0) (\<lambda>length_cm.
     bindE (py_index dims 1) (\<lambda>d1. bindE (py_float d1) (\<lambda>width_cm.
     bindE (py_index dims 2) (\<lambda>d2. bindE (py_float d2) (\<lambda>height_cm.
     bindE (py_getitem (raw_name raw)) (\<lambda>nm.
     bindE (py_getitem (raw_order_quantity_pcs raw)) (\<lambda>q0. bindE (py_int q0) (\<lambda>qty.
     bindE (py_getitem (raw_pcs_per_carton raw)) (\<lambda>c0. bindE (py_int c0) (\<lambda>pcs.
       Inr \<lparr>name = nm, order_quantity_pcs = qty, pcs_per_carton = pcs,
            carton_length_cm = length_cm, carton_width_cm = width_cm,
            carton_height_cm = height_cm\<rparr>))))))))))))"

text \<open>\<^verbatim>\<open>except (KeyError, TypeError, ValueError)\<close>: any other exception propagates.\<close>

fun load_product :: "raw_product \<Rightarrow> error + ProductSpec" where
  "load_product raw =
     (case load_product_body raw of
        Inr p \<Rightarrow> Inr p
      | Inl KeyError \<Rightarrow> Inl (ValueError (Invalid_product_specification raw))
      | Inl TypeError \<Rightarrow> Inl (ValueError (Invalid_product_specification raw))
      | Inl (ValueError m) \<Rightarrow> Inl (ValueError (Invalid_product_specification raw))
      | Inl e \<Rightarrow> Inl e)"

fun load_products_loop :: "raw_product list \<Rightarrow> ProductSpec list \<Rightarrow> error + ProductSpec list" where
  "load_products_loop [] acc = Inr acc"
| "load_products_loop (raw # raws) acc =
     bindE (load_product raw) (\<lambda>p. load_products_loop raws (acc @ [p]))"

definition load_products :: "raw_product list \<Rightarrow> error + ProductSpec list" where
  "load_products raw_products =
     bindE (load_products_loop raw_products []) (\<lambda>ps.
       if ps = [] then Inl (ValueError At_least_one_product) else Inr ps)"

text \<open>\<^verbatim>\<open>raw_pallet.get("base_height_cm", 15.0)\<close> supplies the default for a missing key.\<close>

definition load_pallet_body :: "raw_pallet \<Rightarrow> error + (rat \<times> rat \<times> rat \<times> rat)" where
  "load_pallet_body raw =
     bindE (py_getitem (raw_length_cm raw)) (\<lambda>l0. bindE (py_float l0) (\<lambda>l.
     bindE (py_getitem (raw_width_cm raw)) (\<lambda>w0. bindE (py_float w0) (\<lambda>w.
     bindE (py_getitem (raw_height_cm raw)) (\<lambda>h0. bindE (py_float h0) (\<lambda>h.
     bindE (py_float (case raw_base_height_cm raw of None \<Rightarrow> PFloat 15 | Some v \<Rightarrow> v)) (\<lambda>b.
       Inr (l, w, h, b))))))))"

definition load_pallet :: "raw_pallet \<Rightarrow> error + PalletSpec" where
  "load_pallet raw =
     (case load_pallet_body raw of
        Inl KeyError \<Rightarrow> Inl (ValueError Invalid_pallet_specification)
      | Inl TypeError \<Rightarrow> Inl (ValueError Invalid_pallet_specification)
      | Inl (ValueError m) \<Rightarrow> Inl (ValueError Invalid_pallet_specification)
      | Inl e \<Rightarrow> Inl e
      | Inr (l, w, h, b) \<Rightarrow>
          if l \<le> 0 \<or> w \<le> 0 \<or> h \<le> 0 \<or> b \<le> 0
          then Inl (ValueError Pallet_dimensions_must_be_positive)
          else if h \<le> b then Inl (ValueError Pallet_base_height_must_be_lower)
          else Inr \<lparr>length_cm = l, width_cm = w, height_cm = h, base_height_cm = b\<rparr>)"

text \<open>\<^verbatim>\<open>str.upper\<close> on ASCII letters.\<close>

definition upper_char :: "char \<Rightarrow> char" where
  "upper_char c =
     (let n = (of_char c :: nat) in if 97 \<le> n \<and> n \<le> 122 then char_of (n - 32) else c)"

definition CONTAINER_HEIGHTS_CM :: "(string \<times> rat) list" where
  "CONTAINER_HEIGHTS_CM = [(''20CY'', 239), (''40CY'', 239), (''40HQ'', 269)]"

definition resolve_container_height :: "string \<Rightarrow> error + rat" where
  "resolve_container_height code =
     (case map_of CONTAINER_HEIGHTS_CM (map upper_char code) of
        Some h \<Rightarrow> Inr h
      | None \<Rightarrow> Inl (ValueError (Unsupported_container_height code)))"

text \<open>Floor division and modulo raise on a zero divisor; on integers HOL's \<open>div\<close> and
  \<open>mod\<close> round as Python's \<^verbatim>\<open>//\<close> and \<^verbatim>\<open>%\<close> do.\<close>

definition py_floordiv :: "int \<Rightarrow> int \<Rightarrow> error + int" where
  "py_floordiv a b = (if b = 0 then Inl ZeroDivisionError else Inr (a div b))"

definition py_mod :: "int \<Rightarrow> int \<Rightarrow> error + int" where
  "py_mod a b = (if b = 0 then Inl ZeroDivisionError else Inr (a mod b))"

text \<open>\<^verbatim>\<open>d.get(k, default)\<close> and \<^verbatim>\<open>d[k] = v\<close> on an insertion-ordered dictionary.\<close>

fun dict_get :: "('k \<times> 'v) list \<Rightarrow> 'k \<Rightarrow> 'v \<Rightarrow> 'v" where
  "dict_get [] k dflt = dflt"
| "dict_get ((k', v') # kvs) k dflt = (if k' = k then v' else dict_get kvs k dflt)"

fun dict_set :: "('k \<times> 'v) list \<Rightarrow> 'k \<Rightarrow> 'v \<Rightarrow> ('k \<times> 'v) list" where
  "dict_set [] k v = [(k, v)]"
| "dict_set ((k', v') # kvs) k v =
     (if k' = k then (k, v) # kvs else (k', v') # dict_set kvs k v)"

text \<open>Decimal rendering of a positive index, as an f-string does.\<close>

function str_nat :: "nat \<Rightarrow> string" where
  "str_nat n =
     (if n < 10 then [char_of (48 + n)]
      else str_nat (n div 10) @ [char_of (48 + n mod 10)])"
  by pat_completeness auto
termination
  by (relation "measure (\<lambda>n. n)") auto

declare str_nat.simps [simp del]

section \<open>Orientation selector\<close>

definition orientation_key :: "OrientationPlan \<Rightarrow> int \<times> int \<times> int" where
  "orientation_key plan =
     (cartons_per_layer plan, cartons_along_length plan, cartons_along_width plan)"

text \<open>The \<^verbatim>\<open>for length, width in (...)\<close> loop of \<^verbatim>\<open>_best_orientation\<close>.\<close>

fun orientation_loop ::
  "PalletSpec \<Rightarrow> (rat \<times> rat) list \<Rightarrow> OrientationPlan list \<Rightarrow> error + OrientationPlan list"
where
  "orientation_loop pal [] options = Inr options"
| "orientation_loop pal ((len, wid) # rest) options =
     bindE (py_truediv (length_cm pal) len) (\<lambda>ql.
     bindE (py_truediv (width_cm pal) wid) (\<lambda>qw.
       let count_length = \<lfloor>ql\<rfloor>;
           count_width = \<lfloor>qw\<rfloor>;
           per_layer = count_length * count_width
       in if per_layer \<le> 0 then orientation_loop pal rest options
          else orientation_loop pal rest
                 (options @ [\<lparr>cartons_per_layer = per_layer,
                               cartons_along_length = count_length,
                               cartons_along_width = count_width,
                               plan_carton_length_cm = len,
                               plan_carton_width_cm = wid\<rparr>])))"

definition best_orientation :: "ProductSpec \<Rightarrow> PalletSpec \<Rightarrow> error + OrientationPlan" where
  "best_orientation p pal =
     bindE (orientation_loop pal
              [(carton_length_cm p, carton_width_cm p),
               (carton_width_cm p, carton_length_cm p)] [])
       (\<lambda>options.
          if options = [] then Inl (ValueError (Cannot_fit_on_footprint (name p)))
          else (case sorted_desc orientation_key options of
                  [] \<Rightarrow> Inl IndexError
                | best # others \<Rightarrow> Inr best))"

section \<open>Layer fragments and the remainder packer\<close>

definition build_layers :: "ProductPlan \<Rightarrow> error + Layer list" where
  "build_layers plan =
     (if remainder_cartons plan \<le> 0 then Inr []
      else
        let per_layer = cartons_per_layer (orientation plan) in
        bindE (py_floordiv (remainder_cartons plan) per_layer) (\<lambda>full_layers.
          let layers = replicate (nat full_layers)
                         \<lparr>product_name = name (product plan), cartons = per_layer,
                          layer_height_cm = carton_height_cm (product plan)\<rparr>
          in bindE (py_mod (remainder_cartons plan) per_layer) (\<lambda>remaining.
               if remaining \<noteq> 0
               then Inr (layers @ [\<lparr>product_name = name (product plan), cartons = remaining,
                                     layer_height_cm = carton_height_cm (product plan)\<rparr>])
               else Inr layers)))"

text \<open>The \<^verbatim>\<open>for layer in ordered\<close> loop of \<^verbatim>\<open>_pack_layers\<close>; the state is
  \<^verbatim>\<open>(pallets, current, current_height)\<close>.\<close>

fun pack_loop ::
  "rat \<Rightarrow> Layer list \<Rightarrow> Layer list list \<Rightarrow> Layer list \<Rightarrow> rat
   \<Rightarrow> error + (Layer list list \<times> Layer list \<times> rat)"
where
  "pack_loop limit [] pals current current_height = Inr (pals, current, current_height)"
| "pack_loop limit (layer # rest) pals current current_height =
     (if layer_height_cm layer > limit then Inl (ValueError Layer_height_exceeds_limit)
      else if current_height + layer_height_cm layer \<le> limit
      then pack_loop limit rest pals (current @ [layer])
             (current_height + layer_height_cm layer)
      else pack_loop limit rest (pals @ [current]) [layer] (layer_height_cm layer))"

definition pack_layers :: "Layer list \<Rightarrow> rat \<Rightarrow> error + Layer list list" where
  "pack_layers layers goods_height_limit_cm =
     (if layers = [] then Inr []
      else
        bindE (pack_loop goods_height_limit_cm (sorted_desc layer_height_cm layers) [] [] 0)
          (\<lambda>(pals, current, current_height).
             Inr (if current \<noteq> [] then pals @ [current] else pals)))"

section \<open>Product planner and result aggregator\<close>

text \<open>The planning part of the loop body of \<^verbatim>\<open>calculate_palletization\<close>: the plan of one
  product, with its \<^verbatim>\<open>cartons_required\<close>.\<close>

definition plan_product ::
  "PalletSpec \<Rightarrow> rat \<Rightarrow> ProductSpec \<Rightarrow> error + (ProductPlan \<times> int)"
where
  "plan_product pal goods_limit_cm p =
     bindE (best_orientation p pal) (\<lambda>orient.
     bindE (py_truediv goods_limit_cm (carton_height_cm p)) (\<lambda>q.
       let lpp = \<lfloor>q\<rfloor> in
       if lpp \<le> 0 then Inl (ValueError (Exceeds_stacking_height (name p)))
       else
         let cpp = cartons_per_layer orient * lpp in
         if cpp \<le> 0 then Inl (ValueError (Cannot_be_placed (name p)))
         else
           bindE (cartons_required p) (\<lambda>required.
             Inr (\<lparr>product = p, orientation = orient, layers_per_pallet = lpp,
                   cartons_per_pallet = cpp,
                   full_pallets = required div cpp,
                   remainder_cartons = required mod cpp\<rparr>, required))))"

record plan_state =
  st_product_plans :: "ProductPlan list"
  st_remainder_layers :: "Layer list"
  st_pallets :: "PalletDetail list"
  st_total_cartons :: int
  st_volume_without_pallets :: rat

definition full_pallet_detail :: "PalletSpec \<Rightarrow> ProductPlan \<Rightarrow> PalletDetail" where
  "full_pallet_detail pal plan =
     \<lparr>label = name (product plan) @ '' full pallet'',
      count = full_pallets plan,
      cartons_by_product = [(name (product plan), cartons_per_pallet plan)],
      goods_height_cm = plan_goods_height_cm plan,
      total_height_cm = plan_goods_height_cm plan + base_height_cm pal\<rparr>"

definition remainder_pallet_detail :: "PalletSpec \<Rightarrow> ProductPlan \<Rightarrow> error + PalletDetail" where
  "remainder_pallet_detail pal plan =
     bindE (py_truediv (of_int (remainder_cartons plan))
              (of_int (cartons_per_layer (orientation plan)))) (\<lambda>q.
       let goods = of_int \<lceil>q\<rceil> * carton_height_cm (product plan) in
       Inr \<lparr>label = name (product plan) @ '' remainder pallet'',
            count = 1,
            cartons_by_product = [(name (product plan), remainder_cartons plan)],
            goods_height_cm = goods,
            total_height_cm = goods + base_height_cm pal\<rparr>)"

definition plan_step ::
  "PalletSpec \<Rightarrow> rat \<Rightarrow> bool \<Rightarrow> ProductSpec \<Rightarrow> plan_state \<Rightarrow> error + plan_state"
where
  "plan_step pal goods_limit_cm mixed p st =
     bindE (plan_product pal goods_limit_cm p) (\<lambda>(plan, required).
       let st1 = st\<lparr>st_product_plans := st_product_plans st @ [plan],
                    st_volume_without_pallets :=
                      st_volume_without_pallets st + of_int required * carton_volume_cbm p,
                    st_total_cartons := st_total_cartons st + required\<rparr>;
           st2 = (if full_pallets plan \<noteq> 0
                  then st1\<lparr>st_pallets := st_pallets st1 @ [full_pallet_detail pal plan]\<rparr>
                  else st1)
       in if mixed
          then bindE (build_layers plan) (\<lambda>layers.
                 Inr (st2\<lparr>st_remainder_layers := st_remainder_layers st2 @ layers\<rparr>))
          else if remainder_cartons plan \<noteq> 0
          then bindE (remainder_pallet_detail pal plan) (\<lambda>detail.
                 Inr (st2\<lparr>st_pallets := st_pallets st2 @ [detail]\<rparr>))
          else Inr st2)"

fun plan_loop ::
  "PalletSpec \<Rightarrow> rat \<Rightarrow> bool \<Rightarrow> ProductSpec list \<Rightarrow> plan_state \<Rightarrow> error + plan_state"
where
  "plan_loop pal goods_limit_cm mixed [] st = Inr st"
| "plan_loop pal goods_limit_cm mixed (p # ps) st =
     bindE (plan_step pal goods_limit_cm mixed p st)
       (\<lambda>st'. plan_loop pal goods_limit_cm mixed ps st')"

text \<open>The \<^verbatim>\<open>for layer in layer_stack\<close> loop: the per-product carton counts and the goods
  height of one mixed pallet.\<close>

fun stack_totals ::
  "Layer list \<Rightarrow> (string \<times> int) list \<Rightarrow> rat \<Rightarrow> (string \<times> int) list \<times> rat"
where
  "stack_totals [] by_product goods = (by_product, goods)"
| "stack_totals (layer # rest) by_product goods =
     stack_totals rest
       (dict_set by_product (product_name layer)
          (dict_get by_product (product_name layer) 0 + cartons layer))
       (goods + layer_height_cm layer)"

text \<open>The \<^verbatim>\<open>for index, layer_stack in enumerate(packed, start=1)\<close> loop.\<close>

fun mixed_pallets ::
  "PalletSpec \<Rightarrow> nat \<Rightarrow> Layer list list \<Rightarrow> PalletDetail list \<Rightarrow> PalletDetail list"
where
  "mixed_pallets pal index [] pals = pals"
| "mixed_pallets pal index (layer_stack # rest) pals =
     (case stack_totals layer_stack [] 0 of
        (by_product, goods) \<Rightarrow>
          mixed_pallets pal (Suc index) rest
            (pals @ [\<lparr>label = ''Mixed remainder pallet #'' @ str_nat index,
                      count = 1,
                      cartons_by_product = by_product,
                      goods_height_cm = goods,
                      total_height_cm = goods + base_height_cm pal\<rparr>]))"

text \<open>The \<^verbatim>\<open>for detail in pallets\<close> loop accumulating \<^verbatim>\<open>volume_with_pallets\<close>.\<close>

fun volume_loop :: "rat \<Rightarrow> PalletDetail list \<Rightarrow> rat \<Rightarrow> rat" where
  "volume_loop footprint [] volume = volume"
| "volume_loop footprint (detail # rest) volume =
     (let height_m = total_height_cm detail / 100
      in volume_loop footprint rest (volume + of_int (count detail) * footprint * height_m))"

text \<open>The accumulators of \<^verbatim>\<open>calculate_palletization\<close> before its loop.\<close>

definition initial_plan_state :: plan_state where
  "initial_plan_state =
     \<lparr>st_product_plans = [], st_remainder_layers = [], st_pallets = [],
      st_total_cartons = 0, st_volume_without_pallets = 0\<rparr>"

definition calculate_palletization :: "CalculationInput \<Rightarrow> error + CalculationResult" where
  "calculate_palletization data =
     bindE (load_products (products data)) (\<lambda>prods.
     bindE (load_pallet (pallet data)) (\<lambda>pal.
     bindE (resolve_container_height (container_height data)) (\<lambda>container_height_cm.
     bindE (goods_height_limit pal container_height_cm) (\<lambda>goods_limit_cm.
     bindE (plan_loop pal goods_limit_cm (allow_mixed_remainders data) prods
              initial_plan_state) (\<lambda>st.
     bindE (if allow_mixed_remainders data \<and> st_remainder_layers st \<noteq> []
            then bindE (pack_layers (st_remainder_layers st) goods_limit_cm) (\<lambda>packed.
                   Inr (mixed_pallets pal 1 packed (st_pallets st)))
            else Inr (st_pallets st)) (\<lambda>pals.
       let pallet_footprint_sqm = (length_cm pal / 100) * (width_cm pal / 100)
       in Inr \<lparr>product_plans = st_product_plans st,
               pallets = pals,
               total_cartons = st_total_cartons st,
               total_pallets = sum_list (map count pals),
               volume_without_pallets_cbm = st_volume_without_pallets st,
               volume_with_pallets_cbm = volume_loop pallet_footprint_sqm pals 0\<rparr>))))))"

section \<open>Notions used in the statements\<close>

text \<open>The summed layer height of a grouping.\<close>

definition stack_height :: "Layer list \<Rightarrow> rat" where
  "stack_height g = sum_list (map layer_height_cm g)"

text \<open>A grouping \<open>g'\<close> follows \<open>g\<close> because its first fragment did not fit on top of \<open>g\<close>.\<close>

definition opened_by_overflow :: "rat \<Rightarrow> Layer list \<Rightarrow> Layer list \<Rightarrow> bool" where
  "opened_by_overflow limit g g' =
     (case g' of [] \<Rightarrow> False | l # ls \<Rightarrow> limit < stack_height g + layer_height_cm l)"

text \<open>The cartons on the pallets that one \<open>PalletDetail\<close> stands for.\<close>

definition pallet_cartons :: "PalletDetail \<Rightarrow> int" where
  "pallet_cartons detail = count detail * sum_list (map snd (cartons_by_product detail))"

text \<open>The invariant of the packing loop: the running height is the height of the open
  pallet, every prefix of every pallet fits under the limit, closed pallets are non-empty,
  and each pallet after the first was opened by a fragment that did not fit.\<close>

definition pack_inv :: "rat \<Rightarrow> Layer list list \<Rightarrow> Layer list \<Rightarrow> rat \<Rightarrow> bool" where
  "pack_inv limit pals current h \<longleftrightarrow>
     h = stack_height current \<and>
     (current = [] \<longrightarrow> pals = []) \<and>
     (\<forall>g \<in> set (pals @ [current]). \<forall>n \<le> length g. stack_height (take n g) \<le> limit) \<and>
     (\<forall>g \<in> set pals. g \<noteq> []) \<and>
     successively (opened_by_overflow limit) (pals @ [current])"

text \<open>The invariant of the planning loop for carton conservation: the cartons on the
  pallets emitted so far and in the pooled fragments are the cartons required so far, and
  fragments are pooled only when mixing is enabled.\<close>

definition conserved :: "bool \<Rightarrow> plan_state \<Rightarrow> bool" where
  "conserved mixed s \<longleftrightarrow>
     sum_list (map pallet_cartons (st_pallets s)) + sum_list (map cartons (st_remainder_layers s))
       = st_total_cartons s \<and>
     st_total_cartons s =
       (\<Sum>plan\<leftarrow>st_product_plans s.
          full_pallets plan * cartons_per_pallet plan + remainder_cartons plan) \<and>
     (mixed \<or> st_remainder_layers s = [])"

text \<open>One candidate layout of the orientation selector, in the words of the specification.\<close>

definition footprint_layout :: "PalletSpec \<Rightarrow> rat \<Rightarrow> rat \<Rightarrow> OrientationPlan" where
  "footprint_layout pal len wid =
     \<lparr>cartons_per_layer = \<lfloor>length_cm pal / len\<rfloor> * \<lfloor>width_cm pal / wid\<rfloor>,
      cartons_along_length = \<lfloor>length_cm pal / len\<rfloor>,
      cartons_along_width = \<lfloor>width_cm pal / wid\<rfloor>,
      plan_carton_length_cm = len,
      plan_carton_width_cm = wid\<rparr>"

section \<open>The end-to-end scenario of the test suite\<close>

definition example_product_a :: raw_product where
  "example_product_a =
     \<lparr>raw_name = Some ''999-00031'',
      raw_order_quantity_pcs = Some (PInt 800),
      raw_pcs_per_carton = Some (PInt 10),
      raw_carton_dimensions_cm = Some (PList [PInt 56, PInt 26, PInt 20])\<rparr>"

definition example_product_b :: raw_product where
  "example_product_b =
     \<lparr>raw_name = Some ''999-00166'',
      raw_order_quantity_pcs = Some (PInt 580),
      raw_pcs_per_carton = Some (PInt 10),
      raw_carton_dimensions_cm = Some (PList [PInt 97, PInt 26, PInt 20])\<rparr>"

definition example_raw_pallet :: raw_pallet where
  "example_raw_pallet =
     \<lparr>raw_length_cm = Some (PInt 120), raw_width_cm = Some (PInt 105),
      raw_height_cm = Some (PInt 195), raw_base_height_cm = None\<rparr>"

definition build_example_input :: "bool \<Rightarrow> CalculationInput" where
  "build_example_input allow_mixed =
     \<lparr>products = [example_product_a, example_product_b],
      pallet = example_raw_pallet,
      allow_mixed_remainders = allow_mixed,
      container_height = ''20CY''\<rparr>"

text \<open>A shipment of one product on the same pallet and container.\<close>

definition single_product_input :: "raw_product \<Rightarrow> bool \<Rightarrow> CalculationInput" where
  "single_product_input raw allow_mixed =
     \<lparr>products = [raw],
      pallet = example_raw_pallet,
      allow_mixed_remainders = allow_mixed,
      container_height = ''20CY''\<rparr>"

definition example_pallet :: PalletSpec where
  "example_pallet = \<lparr>length_cm = 120, width_cm = 105, height_cm = 195, base_height_cm = 15\<rparr>"

definition example_spec_b :: ProductSpec where
  "example_spec_b =
     \<lparr>name = ''999-00166'', order_quantity_pcs = 580, pcs_per_carton = 10,
      carton_length_cm = 97, carton_width_cm = 26, carton_height_cm = 20\<rparr>"

definition example_layers :: "Layer list" where
  "example_layers =
     [\<lparr>product_name = ''A'', cartons = 8, layer_height_cm = 60\<rparr>,
      \<lparr>product_name = ''B'', cartons = 4, layer_height_cm = 100\<rparr>,
      \<lparr>product_name = ''C'', cartons = 2, layer_height_cm = 60\<rparr>,
      \<lparr>product_name = ''D'', cartons = 5, layer_height_cm = 90\<rparr>,
      \<lparr>product_name = ''E'', cartons = 1, layer_height_cm = 60\<rparr>]"

text \<open>Raw records whose fields are not positive.\<close>

definition zero_quantity_product :: raw_product where
  "zero_quantity_product =
     \<lparr>raw_name = Some ''X'',
      raw_order_quantity_pcs = Some (PInt 0),
      raw_pcs_per_carton = Some (PInt 10),
      raw_carton_dimensions_cm = Some (PList [PInt 56, PInt 26, PInt 20])\<rparr>"

definition zero_pcs_product :: raw_product where
  "zero_pcs_product =
     \<lparr>raw_name = Some ''X'',
      raw_order_quantity_pcs = Some (PInt 800),
      raw_pcs_per_carton = Some (PInt 0),
      raw_carton_dimensions_cm = Some (PList [PInt 56, PInt 26, PInt 20])\<rparr>"

definition negative_footprint_product :: raw_product where
  "negative_footprint_product =
     \<lparr>raw_name = Some ''X'',
      raw_order_quantity_pcs = Some (PInt 800),
      raw_pcs_per_carton = Some (PInt 10),
      raw_carton_dimensions_cm = Some (PList [PInt (- 56), PInt (- 26), PInt 20])\<rparr>"

text \<open>The result of the scenario with mixing enabled.\<close>

definition example_plan_a :: ProductPlan where
  "example_plan_a =
     \<lparr>product = \<lparr>name = ''999-00031'', order_quantity_pcs = 800, pcs_per_carton = 10,
                  carton_length_cm = 56, carton_width_cm = 26, carton_height_cm = 20\<rparr>,
      orientation = \<lparr>cartons_per_layer = 8, cartons_along_length = 2,
                      cartons_along_width = 4, plan_carton_length_cm = 56,
                      plan_carton_width_cm = 26\<rparr>,
      layers_per_pallet = 9, cartons_per_pallet = 72,
      full_pallets = 1, remainder_cartons = 8\<rparr>"

definition example_plan_b :: ProductPlan where
  "example_plan_b =
     \<lparr>product = example_spec_b,
      orientation = \<lparr>cartons_per_layer = 4, cartons_along_length = 4,
                      cartons_along_width = 1, plan_carton_length_cm = 26,
                      plan_carton_width_cm = 97\<rparr>,
      layers_per_pallet = 9, cartons_per_pallet = 36,
      full_pallets = 1, remainder_cartons = 22\<rparr>"

definition example_pallets :: "PalletDetail list" where
  "example_pallets =
     [\<lparr>label = ''999-00031 full pallet'', count = 1,
       cartons_by_product = [(''999-00031'', 72)],
       goods_height_cm = 180, total_height_cm = 195\<rparr>,
      \<lparr>label = ''999-00166 full pallet'', count = 1,
       cartons_by_product = [(''999-00166'', 36)],
       goods_height_cm = 180, total_height_cm = 195\<rparr>,
      \<lparr>label = ''Mixed remainder pallet #1'', count = 1,
       cartons_by_product = [(''999-00031'', 8), (''999-00166'', 22)],
       goods_height_cm = 140, total_height_cm = 155\<rparr>]"

definition example_result :: CalculationResult where
  "example_result =
     \<lparr>product_plans = [example_plan_a, example_plan_b],
      pallets = example_pallets,
      total_cartons = 138,
      total_pallets = 3,
      volume_without_pallets_cbm = 525512 / 100000,
      volume_with_pallets_cbm = 6867 / 1000\<rparr>"

text \<open>The state of the planning loop after both products of the scenario.\<close>

definition example_state :: plan_state where
  "example_state =
     \<lparr>st_product_plans = [example_plan_a, example_plan_b],
      st_remainder_layers =
        \<lparr>product_name = ''999-00031'', cartons = 8, layer_height_cm = 20\<rparr> #
        replicate 5 \<lparr>product_name = ''999-00166'', cartons = 4, layer_height_cm = 20\<rparr> @
        [\<lparr>product_name = ''999-00166'', cartons = 2, layer_height_cm = 20\<rparr>],
      st_pallets = take 2 example_pallets,
      st_total_cartons = 138,
      st_volume_without_pallets = 525512 / 100000\<rparr>"

section \<open>Auxiliary lemmas\<close>


lemma bindE_Inr_iff: "bindE m f = Inr y \<longleftrightarrow> (\<exists>x. m = Inr x \<and> f x = Inr y)"
  by (cases m) auto

lemma bindE_Inl_iff: "bindE m f = Inl e \<longleftrightarrow> (m = Inl e \<or> (\<exists>x. m = Inr x \<and> f x = Inl e))"
  by (cases m) auto

lemma set_insort_desc: "set (insort_desc key x xs) = insert x (set xs)"
  by (induction xs) auto

lemma set_sorted_desc: "set (sorted_desc key xs) = set xs"
  by (induction xs) (auto simp: sorted_desc_def set_insort_desc)



lemma sum_insort_desc:
  "sum_list (map f (insort_desc key x xs)) = (f x :: 'b :: comm_monoid_add) + sum_list (map f xs)"
  by (induction xs) (auto simp: ac_simps)

lemma sum_sorted_desc:
  "sum_list (map f (sorted_desc key xs)) = (sum_list (map f xs) :: 'b :: comm_monoid_add)"
  by (induction xs) (auto simp: sorted_desc_def sum_insort_desc)

lemma descending_insort_desc:
  "sorted_wrt (\<lambda>a b. key b \<le> key a) xs \<Longrightarrow> sorted_wrt (\<lambda>a b. key b \<le> key a) (insort_desc key x xs)"
  by (induction xs) (auto simp: set_insort_desc)

lemma descending_sorted_desc: "sorted_wrt (\<lambda>a b. key b \<le> key a) (sorted_desc key xs)"
  by (induction xs) (auto simp: sorted_desc_def descending_insort_desc)

lemma filter_insort_desc_other:
  "key x \<noteq> k \<Longrightarrow> filter (\<lambda>y. key y = k) (insort_desc key x xs) = filter (\<lambda>y. key y = k) xs"
  by (induction xs) auto

lemma filter_insort_desc_same:
  "sorted_wrt (\<lambda>a b. key b \<le> key a) xs \<Longrightarrow>
   filter (\<lambda>y. key y = key x) (insort_desc key x xs) = x # filter (\<lambda>y. key y = key x) xs"
proof (induction xs)
  case Nil
  then show ?case by simp
next
  case (Cons y ys)
  show ?case
  proof (cases "key y \<le> key x")
    case True
    then show ?thesis by simp
  next
    case False
    then have "key y \<noteq> key x" by auto
    with False Cons show ?thesis by simp
  qed
qed

lemma filter_sorted_desc:
  "filter (\<lambda>y. key y = k) (sorted_desc key xs) = filter (\<lambda>y. key y = k) xs"
proof (induction xs)
  case Nil
  then show ?case by (simp add: sorted_desc_def)
next
  case (Cons x xs)
  have unfold: "sorted_desc key (x # xs) = insort_desc key x (sorted_desc key xs)"
    by (simp add: sorted_desc_def)
  show ?case
  proof (cases "key x = k")
    case True
    then show ?thesis
      using filter_insort_desc_same [OF descending_sorted_desc, of key x xs] Cons
      by (simp add: unfold)
  next
    case False
    then show ?thesis using Cons by (simp add: unfold filter_insort_desc_other)
  qed
qed


lemma pack_inv_append:
  assumes "pack_inv limit pals current h" "h + layer_height_cm l \<le> limit"
  shows "pack_inv limit pals (current @ [l]) (h + layer_height_cm l)"
proof -
  have pre: "\<forall>n \<le> length (current @ [l]). stack_height (take n (current @ [l])) \<le> limit"
  proof (intro allI impI)
    fix n assume n: "n \<le> length (current @ [l])"
    show "stack_height (take n (current @ [l])) \<le> limit"
    proof (cases "n \<le> length current")
      case True
      then show ?thesis using assms(1) by (simp add: pack_inv_def)
    next
      case False
      with n have "take n (current @ [l]) = current @ [l]" by simp
      then show ?thesis using assms by (simp add: pack_inv_def stack_height_def)
    qed
  qed
  have succ: "successively (opened_by_overflow limit) (pals @ [current @ [l]])"
  proof (cases "current = []")
    case True
    then show ?thesis using assms(1) by (simp add: pack_inv_def)
  next
    case False
    then obtain c cs where c: "current = c # cs" by (cases current) auto
    have "successively (opened_by_overflow limit) (pals @ [current])"
      using assms(1) by (simp add: pack_inv_def)
    then show ?thesis
      by (auto simp: successively_append_iff opened_by_overflow_def c)
  qed
  show ?thesis
    using assms pre succ by (auto simp: pack_inv_def stack_height_def)
qed

lemma pack_inv_open:
  assumes "pack_inv limit pals current h" "\<not> h + layer_height_cm l \<le> limit"
    "layer_height_cm l \<le> limit" "0 \<le> limit"
  shows "pack_inv limit (pals @ [current]) [l] (layer_height_cm l)"
proof -
  have ne: "current \<noteq> []"
    using assms by (auto simp: pack_inv_def stack_height_def)
  have pre: "\<forall>n \<le> length [l]. stack_height (take n [l]) \<le> limit"
  proof (intro allI impI)
    fix n assume "n \<le> length [l]"
    then have "n = 0 \<or> n = 1" by auto
    then show "stack_height (take n [l]) \<le> limit"
      using assms by (auto simp: stack_height_def)
  qed
  have prev: "successively (opened_by_overflow limit) (pals @ [current])"
    and h: "h = stack_height current"
    using assms(1) by (simp_all add: pack_inv_def)
  have over: "opened_by_overflow limit (last (pals @ [current])) (hd [[l]])"
    using assms(2) h by (simp add: opened_by_overflow_def)
  have succ: "successively (opened_by_overflow limit) ((pals @ [current]) @ [[l]])"
    unfolding successively_append_iff [of _ "pals @ [current]" "[[l]]"]
    using prev over by simp
  show ?thesis
    using assms(1) ne pre succ by (auto simp: pack_inv_def stack_height_def)
qed

lemma pack_loop_ok:
  assumes "0 \<le> limit" "\<forall>l \<in> set xs. layer_height_cm l \<le> limit" "pack_inv limit pals current h"
  shows "\<exists>pals' current' h'. pack_loop limit xs pals current h = Inr (pals', current', h') \<and>
           pack_inv limit pals' current' h' \<and>
           concat pals' @ current' = concat pals @ current @ xs"
  using assms
proof (induction xs arbitrary: pals current h)
  case Nil
  then show ?case by simp
next
  case (Cons l ls)
  have fits: "\<not> limit < layer_height_cm l" using Cons.prems(2) by auto
  show ?case
  proof (cases "h + layer_height_cm l \<le> limit")
    case True
    have "pack_inv limit pals (current @ [l]) (h + layer_height_cm l)"
      using pack_inv_append [OF Cons.prems(3) True] .
    from Cons.IH [OF Cons.prems(1) _ this] Cons.prems(2) True fits
    show ?thesis by simp
  next
    case False
    have "pack_inv limit (pals @ [current]) [l] (layer_height_cm l)"
      using pack_inv_open [OF Cons.prems(3) False _ Cons.prems(1)] Cons.prems(2) by simp
    from Cons.IH [OF Cons.prems(1) _ this] Cons.prems(2) False fits
    show ?thesis by simp
  qed
qed

lemma pack_inv_init: "0 \<le> limit \<Longrightarrow> pack_inv limit [] [] 0"
  by (simp add: pack_inv_def stack_height_def)

lemma pack_loop_concat:
  "pack_loop limit xs pals current h = Inr (pals', current', h') \<Longrightarrow>
   concat pals' @ current' = concat pals @ current @ xs"
  by (induction xs arbitrary: pals current h) (auto split: if_splits)

lemma pack_layers_concat:
  assumes "pack_layers layers limit = Inr groups"
  shows "concat groups = sorted_desc layer_height_cm layers"
proof (cases "layers = []")
  case True
  then show ?thesis using assms by (auto simp: pack_layers_def sorted_desc_def)
next
  case False
  then obtain pals current h
    where run: "pack_loop limit (sorted_desc layer_height_cm layers) [] [] 0 = Inr (pals, current, h)"
      and groups: "groups = (if current \<noteq> [] then pals @ [current] else pals)"
    using assms by (auto simp: pack_layers_def bindE_Inr_iff)
  from pack_loop_concat [OF run] groups show ?thesis by auto
qed

lemma orientation_loop_step:
  assumes "len \<noteq> 0" "wid \<noteq> 0"
  shows "orientation_loop pal ((len, wid) # rest) options =
           orientation_loop pal rest
             (if cartons_per_layer (footprint_layout pal len wid) \<le> 0 then options
              else options @ [footprint_layout pal len wid])"
  using assms by (simp add: py_truediv_def footprint_layout_def Let_def)

lemma orientation_loop_zero:
  assumes "len = 0 \<or> wid = 0"
  shows "orientation_loop pal ((len, wid) # rest) options = Inl ZeroDivisionError"
  using assms by (auto simp: py_truediv_def)

lemma best_orientation_zero:
  assumes "carton_length_cm p = 0 \<or> carton_width_cm p = 0"
  shows "best_orientation p pal = Inl ZeroDivisionError"
  using assms by (auto simp: best_orientation_def py_truediv_def)

lemma best_orientation_cases:
  assumes "carton_length_cm p \<noteq> 0" "carton_width_cm p \<noteq> 0"
    and "c1 = footprint_layout pal (carton_length_cm p) (carton_width_cm p)"
    and "c2 = footprint_layout pal (carton_width_cm p) (carton_length_cm p)"
  shows "best_orientation p pal =
     (if cartons_per_layer c1 \<le> 0 \<and> cartons_per_layer c2 \<le> 0
      then Inl (ValueError (Cannot_fit_on_footprint (name p)))
      else if cartons_per_layer c1 \<le> 0 then Inr c2
      else if cartons_per_layer c2 \<le> 0 then Inr c1
      else if orientation_key c2 \<le> orientation_key c1 then Inr c1 else Inr c2)"
proof -
  have "orientation_loop pal
          [(carton_length_cm p, carton_width_cm p), (carton_width_cm p, carton_length_cm p)] [] =
        Inr ((if cartons_per_layer c1 \<le> 0 then [] else [c1]) @
             (if cartons_per_layer c2 \<le> 0 then [] else [c2]))"
    using assms by (simp add: orientation_loop_step del: orientation_loop.simps(2))
  then show ?thesis
    by (simp add: best_orientation_def sorted_desc_def)
qed


lemma best_orientation_positive:
  assumes "best_orientation p pal = Inr b"
  shows "0 < cartons_per_layer b"
proof (cases "carton_length_cm p = 0 \<or> carton_width_cm p = 0")
  case True
  then show ?thesis using assms best_orientation_zero [of p pal] by simp
next
  case False
  then show ?thesis
    using assms best_orientation_cases [of p _ pal, OF _ _ refl refl]
    by (auto split: if_splits)
qed

lemma cartons_required_Inr:
  "cartons_required p = Inr c \<longleftrightarrow>
     pcs_per_carton p \<noteq> 0 \<and>
     c = \<lceil>rat_of_int (order_quantity_pcs p) / rat_of_int (pcs_per_carton p)\<rceil>"
  by (auto simp: cartons_required_def py_truediv_def)

lemma cartons_required_Inl:
  "cartons_required p = Inl e \<Longrightarrow> e = ZeroDivisionError"
  by (auto simp: cartons_required_def py_truediv_def split: if_splits)

lemma best_orientation_Inl:
  assumes "best_orientation p pal = Inl e"
  shows "e = ZeroDivisionError \<or> e = ValueError (Cannot_fit_on_footprint (name p))"
proof (cases "carton_length_cm p = 0 \<or> carton_width_cm p = 0")
  case True
  then show ?thesis using assms best_orientation_zero [of p pal] by simp
next
  case False
  then show ?thesis
    using assms best_orientation_cases [of p _ pal, OF _ _ refl refl]
    by (auto split: if_splits)
qed

lemma plan_product_facts:
  assumes "plan_product pal limit p = Inr (plan, required)"
  shows "product plan = p"
    and "best_orientation p pal = Inr (orientation plan)"
    and "0 < cartons_per_layer (orientation plan)"
    and "carton_height_cm p \<noteq> 0"
    and "layers_per_pallet plan = \<lfloor>limit / carton_height_cm p\<rfloor>"
    and "1 \<le> layers_per_pallet plan"
    and "cartons_per_pallet plan = cartons_per_layer (orientation plan) * layers_per_pallet plan"
    and "0 < cartons_per_pallet plan"
    and "cartons_required p = Inr required"
    and "full_pallets plan = required div cartons_per_pallet plan"
    and "remainder_cartons plan = required mod cartons_per_pallet plan"
proof -
  from assms obtain orient q where
    o: "best_orientation p pal = Inr orient" and
    q: "py_truediv limit (carton_height_cm p) = Inr q" and
    l: "\<not> q < 1" and
    c: "\<not> cartons_per_layer orient * \<lfloor>q\<rfloor> \<le> 0" and
    r: "cartons_required p = Inr required" and
    plan: "plan = \<lparr>product = p, orientation = orient, layers_per_pallet = \<lfloor>q\<rfloor>,
                   cartons_per_pallet = cartons_per_layer orient * \<lfloor>q\<rfloor>,
                   full_pallets = required div (cartons_per_layer orient * \<lfloor>q\<rfloor>),
                   remainder_cartons = required mod (cartons_per_layer orient * \<lfloor>q\<rfloor>)\<rparr>"
    by (auto simp: plan_product_def bindE_Inr_iff Let_def split: if_splits)
  from q have h: "carton_height_cm p \<noteq> 0" and qv: "q = limit / carton_height_cm p"
    by (auto simp: py_truediv_def split: if_splits)
  show "product plan = p" by (simp add: plan)
  show "best_orientation p pal = Inr (orientation plan)" by (simp add: plan o)
  show "0 < cartons_per_layer (orientation plan)"
    using best_orientation_positive [OF o] by (simp add: plan)
  show "carton_height_cm p \<noteq> 0" by (rule h)
  show "layers_per_pallet plan = \<lfloor>limit / carton_height_cm p\<rfloor>" by (simp add: plan qv)
  show "1 \<le> layers_per_pallet plan" using l by (simp add: plan le_floor_iff)
  show "cartons_per_pallet plan = cartons_per_layer (orientation plan) * layers_per_pallet plan"
    by (simp add: plan)
  show "0 < cartons_per_pallet plan" using c by (simp add: plan)
  show "cartons_required p = Inr required" by (rule r)
  show "full_pallets plan = required div cartons_per_pallet plan" by (simp add: plan)
  show "remainder_cartons plan = required mod cartons_per_pallet plan" by (simp add: plan)
qed

lemma plan_product_Inl:
  assumes "plan_product pal limit p = Inl e"
  shows "e \<noteq> ValueError Layer_height_exceeds_limit"
  using assms best_orientation_Inl [of p pal] cartons_required_Inl [of p]
  by (auto simp: plan_product_def bindE_Inl_iff Let_def py_truediv_def split: if_splits)

lemma plan_product_balance:
  assumes "plan_product pal limit p = Inr (plan, required)"
  shows "full_pallets plan * cartons_per_pallet plan + remainder_cartons plan = required"
    and "0 \<le> remainder_cartons plan"
    and "remainder_cartons plan < cartons_per_pallet plan"
  using plan_product_facts(8,10,11) [OF assms] by simp_all

lemma plan_product_height:
  assumes "0 < limit" "plan_product pal limit p = Inr (plan, required)"
  shows "0 < carton_height_cm p"
    and "of_int (layers_per_pallet plan) * carton_height_cm p \<le> limit"
    and "carton_height_cm p \<le> limit"
proof -
  note f = plan_product_facts [OF assms(2)]
  have one: "1 \<le> \<lfloor>limit / carton_height_cm p\<rfloor>" using f(5,6) by simp
  then have q: "1 \<le> limit / carton_height_cm p" by (simp add: le_floor_iff)
  show pos: "0 < carton_height_cm p"
  proof (rule ccontr)
    assume "\<not> 0 < carton_height_cm p"
    with f(4) have "carton_height_cm p < 0" by simp
    with assms(1) have "limit / carton_height_cm p < 0" by (simp add: divide_pos_neg)
    with q show False by simp
  qed
  have "of_int \<lfloor>limit / carton_height_cm p\<rfloor> \<le> limit / carton_height_cm p" by simp
  then have "of_int \<lfloor>limit / carton_height_cm p\<rfloor> * carton_height_cm p
      \<le> limit / carton_height_cm p * carton_height_cm p"
    using pos by (intro mult_right_mono) auto
  then show le: "of_int (layers_per_pallet plan) * carton_height_cm p \<le> limit"
    using pos by (simp add: f(5))
  have "1 * carton_height_cm p \<le> of_int (layers_per_pallet plan) * carton_height_cm p"
    using f(6) pos by (intro mult_right_mono) auto
  with le show "carton_height_cm p \<le> limit" by simp
qed

lemma build_layers_eq:
  assumes "0 < cartons_per_layer (orientation plan)"
  shows "build_layers plan =
     Inr (if remainder_cartons plan \<le> 0 then []
          else replicate (nat (remainder_cartons plan div cartons_per_layer (orientation plan)))
                 \<lparr>product_name = name (product plan),
                  cartons = cartons_per_layer (orientation plan),
                  layer_height_cm = carton_height_cm (product plan)\<rparr> @
               (if remainder_cartons plan mod cartons_per_layer (orientation plan) \<noteq> 0
                then [\<lparr>product_name = name (product plan),
                       cartons = remainder_cartons plan mod cartons_per_layer (orientation plan),
                       layer_height_cm = carton_height_cm (product plan)\<rparr>]
                else []))"
  using assms by (simp add: build_layers_def py_floordiv_def py_mod_def Let_def)

lemma build_layers_Inl: "build_layers plan = Inl e \<Longrightarrow> e = ZeroDivisionError"
  by (auto simp: build_layers_def py_floordiv_def py_mod_def Let_def bindE_Inl_iff
      split: if_splits)

lemma build_layers_height:
  assumes "build_layers plan = Inr layers" "l \<in> set layers"
  shows "layer_height_cm l = carton_height_cm (product plan)"
  using assms
  by (auto simp: build_layers_def py_floordiv_def py_mod_def Let_def bindE_Inr_iff
      split: if_splits)

lemma build_layers_cartons:
  assumes "0 < cartons_per_layer (orientation plan)" "0 \<le> remainder_cartons plan"
    and "build_layers plan = Inr layers"
  shows "sum_list (map cartons layers) = remainder_cartons plan"
proof (cases "remainder_cartons plan \<le> 0")
  case True
  then show ?thesis using assms by (simp add: build_layers_eq)
next
  case False
  let ?r = "remainder_cartons plan" and ?c = "cartons_per_layer (orientation plan)"
  have nn: "0 \<le> ?r div ?c" using assms(1,2) by (simp add: pos_imp_zdiv_nonneg_iff)
  have "sum_list (map cartons layers) = int (nat (?r div ?c)) * ?c + ?r mod ?c"
    using False assms by (auto simp: build_layers_eq sum_list_replicate)
  also have "\<dots> = ?r div ?c * ?c + ?r mod ?c" using nn by simp
  also have "\<dots> = ?r" by simp
  finally show ?thesis .
qed




lemma remainder_pallet_detail_Inl:
  "remainder_pallet_detail pal plan = Inl e \<Longrightarrow> e = ZeroDivisionError"
  by (auto simp: remainder_pallet_detail_def py_truediv_def Let_def split: if_splits)

text \<open>What one iteration of the planning loop adds to the state.\<close>

lemma plan_step_Inr:
  assumes "plan_step pal limit mixed p st = Inr st'"
  shows "\<exists>plan required layers extra.
     plan_product pal limit p = Inr (plan, required) \<and>
     st_product_plans st' = st_product_plans st @ [plan] \<and>
     st_total_cartons st' = st_total_cartons st + required \<and>
     st_volume_without_pallets st' =
       st_volume_without_pallets st + of_int required * carton_volume_cbm p \<and>
     st_remainder_layers st' = st_remainder_layers st @ layers \<and>
     st_pallets st' =
       st_pallets st @ (if full_pallets plan \<noteq> 0 then [full_pallet_detail pal plan] else [])
         @ extra \<and>
     (if mixed then build_layers plan = Inr layers \<and> extra = []
      else layers = [] \<and>
        (if remainder_cartons plan \<noteq> 0 then remainder_pallet_detail pal plan = Inr (hd extra) \<and> length extra = 1
         else extra = []))"
proof -
  from assms obtain plan required where
    pp: "plan_product pal limit p = Inr (plan, required)"
    by (auto simp: plan_step_def bindE_Inr_iff)
  show ?thesis
  proof (cases mixed)
    case True
    with assms pp obtain layers where "build_layers plan = Inr layers"
      and "st' = (let st1 = st\<lparr>st_product_plans := st_product_plans st @ [plan],
                    st_volume_without_pallets :=
                      st_volume_without_pallets st + of_int required * carton_volume_cbm p,
                    st_total_cartons := st_total_cartons st + required\<rparr>;
           st2 = (if full_pallets plan \<noteq> 0
                  then st1\<lparr>st_pallets := st_pallets st1 @ [full_pallet_detail pal plan]\<rparr>
                  else st1) in st2\<lparr>st_remainder_layers := st_remainder_layers st2 @ layers\<rparr>)"
      by (auto simp: plan_step_def bindE_Inr_iff Let_def)
    with pp True show ?thesis
      by (intro exI [of _ plan] exI [of _ required] exI [of _ layers] exI [of _ "[]"])
        (simp add: Let_def)
  next
    case False
    show ?thesis
    proof (cases "remainder_cartons plan \<noteq> 0")
      case True
      with assms pp False obtain detail where "remainder_pallet_detail pal plan = Inr detail"
        and "st' = (let st1 = st\<lparr>st_product_plans := st_product_plans st @ [plan],
                    st_volume_without_pallets :=
                      st_volume_without_pallets st + of_int required * carton_volume_cbm p,
                    st_total_cartons := st_total_cartons st + required\<rparr>;
           st2 = (if full_pallets plan \<noteq> 0
                  then st1\<lparr>st_pallets := st_pallets st1 @ [full_pallet_detail pal plan]\<rparr>
                  else st1) in st2\<lparr>st_pallets := st_pallets st2 @ [detail]\<rparr>)"
        by (auto simp: plan_step_def bindE_Inr_iff Let_def)
      with pp True False show ?thesis
        by (intro exI [of _ plan] exI [of _ required] exI [of _ "[]"] exI [of _ "[detail]"])
          (simp add: Let_def)
    next
      case rem: False
      with assms pp False have
        "st' = (let st1 = st\<lparr>st_product_plans := st_product_plans st @ [plan],
                    st_volume_without_pallets :=
                      st_volume_without_pallets st + of_int required * carton_volume_cbm p,
                    st_total_cartons := st_total_cartons st + required\<rparr>
           in (if full_pallets plan \<noteq> 0
                  then st1\<lparr>st_pallets := st_pallets st1 @ [full_pallet_detail pal plan]\<rparr>
                  else st1))"
        by (auto simp: plan_step_def bindE_Inr_iff Let_def)
      with pp rem False show ?thesis
        by (intro exI [of _ plan] exI [of _ required] exI [of _ "[]"] exI [of _ "[]"])
          (simp add: Let_def)
    qed
  qed
qed

lemma plan_step_Inl:
  assumes "plan_step pal limit mixed p st = Inl e"
  shows "e \<noteq> ValueError Layer_height_exceeds_limit"
  using assms plan_product_Inl [of pal limit p e]
  by (auto simp: plan_step_def bindE_Inl_iff Let_def split: if_splits
      dest: build_layers_Inl remainder_pallet_detail_Inl)

lemma plan_loop_Inl:
  "plan_loop pal limit mixed ps st = Inl e \<Longrightarrow> e \<noteq> ValueError Layer_height_exceeds_limit"
  by (induction ps arbitrary: st) (auto simp: bindE_Inl_iff dest: plan_step_Inl)

lemma plan_loop_invariant:
  assumes "plan_loop pal limit mixed ps st = Inr st'" and "I st"
    and "\<And>p s s'. I s \<Longrightarrow> plan_step pal limit mixed p s = Inr s' \<Longrightarrow> I s'"
  shows "I st'"
  using assms(1,2)
proof (induction ps arbitrary: st)
  case Nil
  then show ?case by simp
next
  case (Cons p ps)
  from Cons.prems(1) obtain s where s: "plan_step pal limit mixed p st = Inr s"
    and rest: "plan_loop pal limit mixed ps s = Inr st'"
    by (auto simp: bindE_Inr_iff)
  from assms(3) [OF Cons.prems(2) s] have "I s" .
  from Cons.IH [OF rest this] show ?case .
qed

lemma example_result_eq:
  "calculate_palletization (build_example_input True) = Inr example_result"
  by code_simp

lemma goods_height_limit_pos: "goods_height_limit pal ch = Inr limit \<Longrightarrow> 0 < limit"
  by (auto simp: goods_height_limit_def Let_def split: if_splits)

lemma calculate_palletization_Inr:
  assumes "calculate_palletization d = Inr r"
  shows "\<exists>prods pal ch limit st pals.
     load_products (products d) = Inr prods \<and>
     load_pallet (pallet d) = Inr pal \<and>
     resolve_container_height (container_height d) = Inr ch \<and>
     goods_height_limit pal ch = Inr limit \<and>
     plan_loop pal limit (allow_mixed_remainders d) prods initial_plan_state = Inr st \<and>
     (if allow_mixed_remainders d \<and> st_remainder_layers st \<noteq> []
      then \<exists>packed. pack_layers (st_remainder_layers st) limit = Inr packed \<and>
             pals = mixed_pallets pal 1 packed (st_pallets st)
      else pals = st_pallets st) \<and>
     r = \<lparr>product_plans = st_product_plans st,
          pallets = pals,
          total_cartons = st_total_cartons st,
          total_pallets = sum_list (map count pals),
          volume_without_pallets_cbm = st_volume_without_pallets st,
          volume_with_pallets_cbm =
            volume_loop ((length_cm pal / 100) * (width_cm pal / 100)) pals 0\<rparr>"
proof -
  from assms obtain prods pal ch limit st pals where
    run: "load_products (products d) = Inr prods"
      "load_pallet (pallet d) = Inr pal"
      "resolve_container_height (container_height d) = Inr ch"
      "goods_height_limit pal ch = Inr limit"
      "plan_loop pal limit (allow_mixed_remainders d) prods initial_plan_state = Inr st"
    and pals: "(if allow_mixed_remainders d \<and> st_remainder_layers st \<noteq> []
         then bindE (pack_layers (st_remainder_layers st) limit) (\<lambda>packed.
                Inr (mixed_pallets pal 1 packed (st_pallets st)))
         else Inr (st_pallets st)) = Inr pals"
    and r: "r = \<lparr>product_plans = st_product_plans st,
          pallets = pals,
          total_cartons = st_total_cartons st,
          total_pallets = sum_list (map count pals),
          volume_without_pallets_cbm = st_volume_without_pallets st,
          volume_with_pallets_cbm =
            volume_loop ((length_cm pal / 100) * (width_cm pal / 100)) pals 0\<rparr>"
    unfolding calculate_palletization_def bindE_Inr_iff Let_def by blast
  have "if allow_mixed_remainders d \<and> st_remainder_layers st \<noteq> []
      then \<exists>packed. pack_layers (st_remainder_layers st) limit = Inr packed \<and>
             pals = mixed_pallets pal 1 packed (st_pallets st)
      else pals = st_pallets st"
    using pals by (auto simp: bindE_Inr_iff split: if_splits)
  with run r show ?thesis by blast
qed

lemma plan_loop_plans:
  assumes "plan_loop pal limit mixed ps st = Inr st'"
    and "\<forall>plan \<in> set (st_product_plans st).
           \<exists>required. plan_product pal limit (product plan) = Inr (plan, required)"
  shows "\<forall>plan \<in> set (st_product_plans st').
           \<exists>required. plan_product pal limit (product plan) = Inr (plan, required)"
proof (rule plan_loop_invariant [OF assms(1), where I = "\<lambda>s. \<forall>plan \<in> set (st_product_plans s).
           \<exists>required. plan_product pal limit (product plan) = Inr (plan, required)"])
  show "\<forall>plan \<in> set (st_product_plans st).
           \<exists>required. plan_product pal limit (product plan) = Inr (plan, required)"
    by (rule assms(2))
next
  fix p s s'
  assume inv: "\<forall>plan \<in> set (st_product_plans s).
           \<exists>required. plan_product pal limit (product plan) = Inr (plan, required)"
    and step: "plan_step pal limit mixed p s = Inr s'"
  from plan_step_Inr [OF step] obtain plan required where
    pp: "plan_product pal limit p = Inr (plan, required)"
    and plans: "st_product_plans s' = st_product_plans s @ [plan]"
    by blast
  from plan_product_facts(1) [OF pp] pp
  have "plan_product pal limit (product plan) = Inr (plan, required)" by simp
  with inv plans
  show "\<forall>plan \<in> set (st_product_plans s').
           \<exists>required. plan_product pal limit (product plan) = Inr (plan, required)"
    by auto
qed

lemma calculate_palletization_plans:
  assumes "calculate_palletization d = Inr r" "plan \<in> set (product_plans r)"
  shows "\<exists>pal ch limit required.
           load_pallet (pallet d) = Inr pal \<and>
           resolve_container_height (container_height d) = Inr ch \<and>
           goods_height_limit pal ch = Inr limit \<and>
           plan_product pal limit (product plan) = Inr (plan, required)"
proof -
  from calculate_palletization_Inr [OF assms(1)] obtain prods pal ch limit st where
    run: "load_pallet (pallet d) = Inr pal"
      "resolve_container_height (container_height d) = Inr ch"
      "goods_height_limit pal ch = Inr limit"
      "plan_loop pal limit (allow_mixed_remainders d) prods initial_plan_state = Inr st"
    and plans: "product_plans r = st_product_plans st"
    by auto
  have "\<forall>plan \<in> set (st_product_plans st).
           \<exists>required. plan_product pal limit (product plan) = Inr (plan, required)"
    by (rule plan_loop_plans [OF run(4)]) (simp add: initial_plan_state_def)
  with assms(2) plans run show ?thesis by auto
qed


lemma pack_layers_total:
  assumes "0 \<le> limit" and "\<forall>l \<in> set layers. layer_height_cm l \<le> limit"
  shows "\<exists>groups. pack_layers layers limit = Inr groups"
proof -
  have "\<forall>l \<in> set (sorted_desc layer_height_cm layers). layer_height_cm l \<le> limit"
    using assms(2) by (simp add: set_sorted_desc)
  from pack_loop_ok [OF assms(1) this pack_inv_init [OF assms(1)]]
  show ?thesis by (auto simp: pack_layers_def)
qed

lemma bindE_neq:
  assumes "\<And>e'. m = Inl e' \<Longrightarrow> e' \<noteq> e" and "\<And>x. m = Inr x \<Longrightarrow> f x \<noteq> Inl e"
  shows "bindE m f \<noteq> Inl e"
  using assms by (cases m) auto

lemma load_product_Inl:
  "load_product raw = Inl e \<Longrightarrow> e \<noteq> ValueError Layer_height_exceeds_limit"
  by (auto split: sum.splits error.splits)

lemma load_products_loop_Inl:
  "load_products_loop raws acc = Inl e \<Longrightarrow> e \<noteq> ValueError Layer_height_exceeds_limit"
  by (induction raws arbitrary: acc)
    (auto simp: bindE_Inl_iff dest: load_product_Inl simp del: load_product.simps)

lemma load_products_Inl:
  "load_products raws = Inl e \<Longrightarrow> e \<noteq> ValueError Layer_height_exceeds_limit"
  by (auto simp: load_products_def bindE_Inl_iff dest: load_products_loop_Inl split: if_splits)

lemma load_pallet_Inl:
  "load_pallet raw = Inl e \<Longrightarrow> e \<noteq> ValueError Layer_height_exceeds_limit"
  by (auto simp: load_pallet_def split: sum.splits error.splits if_splits)

lemma resolve_container_height_Inl:
  "resolve_container_height code = Inl e \<Longrightarrow> e \<noteq> ValueError Layer_height_exceeds_limit"
  by (auto simp: resolve_container_height_def split: option.splits)

lemma goods_height_limit_Inl:
  "goods_height_limit pal ch = Inl e \<Longrightarrow> e \<noteq> ValueError Layer_height_exceeds_limit"
  by (auto simp: goods_height_limit_def Let_def split: if_splits)

lemma plan_loop_layers:
  assumes "plan_loop pal limit mixed ps st = Inr st'"
    and "\<forall>l \<in> set (st_remainder_layers st). \<exists>plan \<in> set (st_product_plans st).
           layer_height_cm l = carton_height_cm (product plan)"
  shows "\<forall>l \<in> set (st_remainder_layers st'). \<exists>plan \<in> set (st_product_plans st').
           layer_height_cm l = carton_height_cm (product plan)"
proof (rule plan_loop_invariant [OF assms(1), where I = "\<lambda>s.
         \<forall>l \<in> set (st_remainder_layers s). \<exists>plan \<in> set (st_product_plans s).
           layer_height_cm l = carton_height_cm (product plan)"])
  show "\<forall>l \<in> set (st_remainder_layers st). \<exists>plan \<in> set (st_product_plans st).
           layer_height_cm l = carton_height_cm (product plan)"
    by (rule assms(2))
next
  fix p s s'
  assume inv: "\<forall>l \<in> set (st_remainder_layers s). \<exists>plan \<in> set (st_product_plans s).
           layer_height_cm l = carton_height_cm (product plan)"
    and step: "plan_step pal limit mixed p s = Inr s'"
  from plan_step_Inr [OF step] obtain plan layers where
    plans: "st_product_plans s' = st_product_plans s @ [plan]"
    and layers: "st_remainder_layers s' = st_remainder_layers s @ layers"
    and built: "if mixed then build_layers plan = Inr layers else layers = []"
    by (auto split: if_splits)
  have new: "\<forall>l \<in> set layers. layer_height_cm l = carton_height_cm (product plan)"
    using built build_layers_height [of plan layers] by (auto split: if_splits)
  show "\<forall>l \<in> set (st_remainder_layers s'). \<exists>plan \<in> set (st_product_plans s').
           layer_height_cm l = carton_height_cm (product plan)"
    using inv new by (auto simp: plans layers)
qed

lemma planned_heights:
  assumes "goods_height_limit pal ch = Inr limit"
    and "plan_loop pal limit mixed ps initial_plan_state = Inr st"
  shows "\<forall>plan \<in> set (st_product_plans st).
           1 \<le> layers_per_pallet plan \<and> 0 < carton_height_cm (product plan) \<and>
           carton_height_cm (product plan) \<le> limit"
    and "\<forall>l \<in> set (st_remainder_layers st). \<exists>plan \<in> set (st_product_plans st).
           layer_height_cm l = carton_height_cm (product plan)"
    and "\<forall>l \<in> set (st_remainder_layers st). layer_height_cm l \<le> limit"
    and "\<exists>packed. pack_layers (st_remainder_layers st) limit = Inr packed"
proof -
  have pos: "0 < limit" by (rule goods_height_limit_pos [OF assms(1)])
  have plans: "\<forall>plan \<in> set (st_product_plans st).
           \<exists>required. plan_product pal limit (product plan) = Inr (plan, required)"
    by (rule plan_loop_plans [OF assms(2)]) (simp add: initial_plan_state_def)
  show a: "\<forall>plan \<in> set (st_product_plans st).
           1 \<le> layers_per_pallet plan \<and> 0 < carton_height_cm (product plan) \<and>
           carton_height_cm (product plan) \<le> limit"
  proof
    fix plan assume "plan \<in> set (st_product_plans st)"
    with plans obtain required where
      pp: "plan_product pal limit (product plan) = Inr (plan, required)" by blast
    show "1 \<le> layers_per_pallet plan \<and> 0 < carton_height_cm (product plan) \<and>
           carton_height_cm (product plan) \<le> limit"
      using plan_product_facts(6) [OF pp] plan_product_height(1,3) [OF pos pp] by simp
  qed
  show b: "\<forall>l \<in> set (st_remainder_layers st). \<exists>plan \<in> set (st_product_plans st).
           layer_height_cm l = carton_height_cm (product plan)"
    by (rule plan_loop_layers [OF assms(2)]) (simp add: initial_plan_state_def)
  show c: "\<forall>l \<in> set (st_remainder_layers st). layer_height_cm l \<le> limit"
    using a b by fastforce
  show "\<exists>packed. pack_layers (st_remainder_layers st) limit = Inr packed"
    using pack_layers_total [OF _ c] pos by simp
qed






lemma volume_loop_sum:
  "volume_loop footprint details volume =
     volume + (\<Sum>detail\<leftarrow>details. of_int (count detail) * footprint * (total_height_cm detail / 100))"
  by (induction details arbitrary: volume) (auto simp: Let_def)

lemma dict_sum:
  "sum_list (map snd (dict_set by_product k (dict_get by_product k 0 + v))) =
     sum_list (map snd by_product) + (v::int)"
  by (induction by_product) auto

lemma stack_totals_cartons:
  "sum_list (map snd (fst (stack_totals layers by_product goods))) =
     sum_list (map snd by_product) + sum_list (map cartons layers)"
  by (induction layers arbitrary: by_product goods) (auto simp: dict_sum)

lemma mixed_pallets_cartons:
  "sum_list (map pallet_cartons (mixed_pallets pal index packed pals)) =
     sum_list (map pallet_cartons pals) + sum_list (map cartons (concat packed))"
proof (induction packed arbitrary: index pals)
  case Nil
  then show ?case by simp
next
  case (Cons g gs)
  obtain by_product goods where st: "stack_totals g [] 0 = (by_product, goods)"
    by (cases "stack_totals g [] 0") auto
  have "sum_list (map snd by_product) = sum_list (map cartons g)"
    using stack_totals_cartons [of g "[]" 0] st by simp
  then have "pallet_cartons \<lparr>label = ''Mixed remainder pallet #'' @ str_nat index,
        count = 1, cartons_by_product = by_product, goods_height_cm = goods,
        total_height_cm = goods + base_height_cm pal\<rparr> = sum_list (map cartons g)"
    by (simp add: pallet_cartons_def)
  then show ?case
    by (simp add: st Cons.IH)
qed

lemma remainder_pallet_detail_cartons:
  "remainder_pallet_detail pal plan = Inr detail \<Longrightarrow>
   pallet_cartons detail = remainder_cartons plan"
  by (auto simp: remainder_pallet_detail_def bindE_Inr_iff Let_def pallet_cartons_def)

lemma plan_loop_products:
  "plan_loop pal limit mixed ps st = Inr st' \<Longrightarrow>
   map product (st_product_plans st') = map product (st_product_plans st) @ ps"
proof (induction ps arbitrary: st)
  case Nil
  then show ?case by simp
next
  case (Cons p ps)
  from Cons.prems obtain s where s: "plan_step pal limit mixed p st = Inr s"
    and rest: "plan_loop pal limit mixed ps s = Inr st'"
    by (auto simp: bindE_Inr_iff)
  from plan_step_Inr [OF s] obtain plan required where
    pp: "plan_product pal limit p = Inr (plan, required)"
    and plans: "st_product_plans s = st_product_plans st @ [plan]"
    by blast
  from Cons.IH [OF rest] plans plan_product_facts(1) [OF pp] show ?case by simp
qed

lemma plan_step_conserved:
  assumes "conserved mixed s" and "plan_step pal limit mixed p s = Inr s'"
  shows "conserved mixed s'"
proof -
  from plan_step_Inr [OF assms(2)] obtain plan required layers extra where
    pp: "plan_product pal limit p = Inr (plan, required)"
    and plans: "st_product_plans s' = st_product_plans s @ [plan]"
    and total: "st_total_cartons s' = st_total_cartons s + required"
    and lay: "st_remainder_layers s' = st_remainder_layers s @ layers"
    and pals: "st_pallets s' =
       st_pallets s @ (if full_pallets plan \<noteq> 0 then [full_pallet_detail pal plan] else [])
         @ extra"
    and mode: "if mixed then build_layers plan = Inr layers \<and> extra = []
      else layers = [] \<and>
        (if remainder_cartons plan \<noteq> 0
         then remainder_pallet_detail pal plan = Inr (hd extra) \<and> length extra = 1
         else extra = [])"
    by blast
  note f = plan_product_facts [OF pp]
  have bal: "full_pallets plan * cartons_per_pallet plan + remainder_cartons plan = required"
    by (rule plan_product_balance(1) [OF pp])
  have full: "sum_list (map pallet_cartons
        (if full_pallets plan \<noteq> 0 then [full_pallet_detail pal plan] else [])) =
      full_pallets plan * cartons_per_pallet plan"
    by (simp add: pallet_cartons_def full_pallet_detail_def)
  have rest: "sum_list (map pallet_cartons extra) + sum_list (map cartons layers) =
      remainder_cartons plan"
  proof (cases mixed)
    case True
    with mode have "build_layers plan = Inr layers" "extra = []" by simp_all
    then show ?thesis
      using build_layers_cartons [OF f(3) plan_product_balance(2) [OF pp]] by simp
  next
    case False
    show ?thesis
    proof (cases "remainder_cartons plan = 0")
      case True
      with mode False show ?thesis by simp
    next
      case nz: False
      with mode False have l: "layers = []"
        and d: "remainder_pallet_detail pal plan = Inr (hd extra)" and "length extra = 1"
        by simp_all
      then have e: "extra = [hd extra]" by (cases extra) auto
      have "pallet_cartons (hd extra) = remainder_cartons plan"
        by (rule remainder_pallet_detail_cartons [OF d])
      moreover have "sum_list (map pallet_cartons extra) = pallet_cartons (hd extra)"
        by (subst e) simp
      ultimately show ?thesis using l by simp
    qed
  qed
  have "sum_list (map pallet_cartons (st_pallets s')) + sum_list (map cartons (st_remainder_layers s'))
      = (sum_list (map pallet_cartons (st_pallets s)) + sum_list (map cartons (st_remainder_layers s)))
        + (full_pallets plan * cartons_per_pallet plan
           + (sum_list (map pallet_cartons extra) + sum_list (map cartons layers)))"
    unfolding pals lay using full by simp
  also have "\<dots> = st_total_cartons s + required"
    using assms(1) rest bal by (simp add: conserved_def)
  finally have one: "sum_list (map pallet_cartons (st_pallets s'))
      + sum_list (map cartons (st_remainder_layers s')) = st_total_cartons s'"
    by (simp add: total)
  have two: "st_total_cartons s' =
       (\<Sum>plan\<leftarrow>st_product_plans s'.
          full_pallets plan * cartons_per_pallet plan + remainder_cartons plan)"
    using assms(1) bal by (simp add: conserved_def total plans)
  have three: "mixed \<or> st_remainder_layers s' = []"
    using assms(1) mode by (auto simp: conserved_def lay split: if_splits)
  from one two three show ?thesis by (simp add: conserved_def)
qed

lemma plan_loop_conserved:
  assumes "plan_loop pal limit mixed ps initial_plan_state = Inr st"
  shows "conserved mixed st"
proof (rule plan_loop_invariant [OF assms, where I = "conserved mixed"])
  show "conserved mixed initial_plan_state"
    by (simp add: conserved_def initial_plan_state_def)
next
  fix p s s'
  assume "conserved mixed s" "plan_step pal limit mixed p s = Inr s'"
  then show "conserved mixed s'" by (rule plan_step_conserved)
qed

section \<open>Properties of the input normalizer\<close>

text \<open>
  Claim C2 says that a raw product whose quantity, pieces per carton or carton dimensions are
  not positive is rejected with a validation error. The normalizer performs no such check:
  a zero quantity is loaded and the calculation returns no pallet at all; zero pieces per
  carton are loaded and the calculation stops on a division by zero, which is not a
  validation error; a negative length and width are loaded and planned like positive ones.
\<close>

theorem load_products_accepts_nonpositive:
  "load_products [zero_quantity_product] =
     Inr [\<lparr>name = ''X'', order_quantity_pcs = 0, pcs_per_carton = 10,
           carton_length_cm = 56, carton_width_cm = 26, carton_height_cm = 20\<rparr>] \<and>
   (case calculate_palletization (single_product_input zero_quantity_product True) of
      Inl e \<Rightarrow> False | Inr r \<Rightarrow> total_pallets r = 0 \<and> pallets r = []) \<and>
   load_products [zero_pcs_product] =
     Inr [\<lparr>name = ''X'', order_quantity_pcs = 800, pcs_per_carton = 0,
           carton_length_cm = 56, carton_width_cm = 26, carton_height_cm = 20\<rparr>] \<and>
   calculate_palletization (single_product_input zero_pcs_product True) =
     Inl ZeroDivisionError \<and>
   \<not> is_validation_error (calculate_palletization (single_product_input zero_pcs_product True)) \<and>
   load_products [negative_footprint_product] =
     Inr [\<lparr>name = ''X'', order_quantity_pcs = 800, pcs_per_carton = 10,
           carton_length_cm = - 56, carton_width_cm = - 26, carton_height_cm = 20\<rparr>] \<and>
   (case calculate_palletization (single_product_input negative_footprint_product True) of
      Inl e \<Rightarrow> False | Inr r \<Rightarrow> total_pallets r = 1)"
  by code_simp

section \<open>Properties of the orientation selector\<close>



section \<open>Properties of the remainder packer\<close>



text \<open>
  Claim C8. The descending-height sort of the remainder packer is stable: the fragments of any
  one height appear in the sorted list, which is in descending order of height, in the same
  relative order as in the input, and so they do in the packed groupings read in sequence.
\<close>

theorem sorted_desc_stable:
  "filter (\<lambda>l. layer_height_cm l = h) (sorted_desc layer_height_cm layers) =
     filter (\<lambda>l. layer_height_cm l = h) layers \<and>
   sorted_wrt (\<lambda>a b. layer_height_cm b \<le> layer_height_cm a)
     (sorted_desc layer_height_cm layers) \<and>
   (pack_layers layers limit = Inr groups \<longrightarrow>
      filter (\<lambda>l. layer_height_cm l = h) (concat groups) =
        filter (\<lambda>l. layer_height_cm l = h) layers)"
proof (intro conjI impI)
  show stable: "filter (\<lambda>l. layer_height_cm l = h) (sorted_desc layer_height_cm layers) =
     filter (\<lambda>l. layer_height_cm l = h) layers"
    by (rule filter_sorted_desc)
  show "sorted_wrt (\<lambda>a b. layer_height_cm b \<le> layer_height_cm a)
     (sorted_desc layer_height_cm layers)"
    by (rule descending_sorted_desc)
  assume "pack_layers layers limit = Inr groups"
  then have "concat groups = sorted_desc layer_height_cm layers"
    by (rule pack_layers_concat)
  with stable show "filter (\<lambda>l. layer_height_cm l = h) (concat groups) =
        filter (\<lambda>l. layer_height_cm l = h) layers"
    by simp
qed

theorem sorted_desc_stable_witness:
  "pack_layers example_layers 180 =
     Inr [[\<lparr>product_name = ''B'', cartons = 4, layer_height_cm = 100\<rparr>],
          [\<lparr>product_name = ''D'', cartons = 5, layer_height_cm = 90\<rparr>,
           \<lparr>product_name = ''A'', cartons = 8, layer_height_cm = 60\<rparr>],
          [\<lparr>product_name = ''C'', cartons = 2, layer_height_cm = 60\<rparr>,
           \<lparr>product_name = ''E'', cartons = 1, layer_height_cm = 60\<rparr>]] \<and>
   filter (\<lambda>l. layer_height_cm l = 60) (sorted_desc layer_height_cm example_layers) =
     [\<lparr>product_name = ''A'', cartons = 8, layer_height_cm = 60\<rparr>,
      \<lparr>product_name = ''C'', cartons = 2, layer_height_cm = 60\<rparr>,
      \<lparr>product_name = ''E'', cartons = 1, layer_height_cm = 60\<rparr>]"
proof -
  have run: "pack_layers example_layers 180 =
     Inr [[\<lparr>product_name = ''B'', cartons = 4, layer_height_cm = 100\<rparr>],
          [\<lparr>product_name = ''D'', cartons = 5, layer_height_cm = 90\<rparr>,
           \<lparr>product_name = ''A'', cartons = 8, layer_height_cm = 60\<rparr>],
          [\<lparr>product_name = ''C'', cartons = 2, layer_height_cm = 60\<rparr>,
           \<lparr>product_name = ''E'', cartons = 1, layer_height_cm = 60\<rparr>]]"
    by (simp add: pack_layers_def example_layers_def sorted_desc_def)
  have "filter (\<lambda>l. layer_height_cm l = 60) (sorted_desc layer_height_cm example_layers) =
      filter (\<lambda>l. layer_height_cm l = 60) example_layers"
    using sorted_desc_stable [of 60 example_layers 180] by blast
  then show ?thesis using run by (simp add: example_layers_def)
qed



section \<open>Properties of the whole calculation\<close>



text \<open>
  Claim C6. Within \<open>calculate_palletization\<close> the height check of the remainder packer never
  fires: the calculation never ends in its error. Whenever the planning loop has succeeded
  under the goods height limit, every plan has at least one layer per pallet and a carton
  height of at most the limit, every pooled fragment has the carton height of one of the
  planned products, hence at most the limit, and the packer returns a packing.
\<close>

theorem layer_check_unreachable:
  "calculate_palletization d \<noteq> Inl (ValueError Layer_height_exceeds_limit) \<and>
   (goods_height_limit pal ch = Inr limit \<and>
    plan_loop pal limit mixed ps initial_plan_state = Inr st \<longrightarrow>
      (\<forall>plan \<in> set (st_product_plans st).
         1 \<le> layers_per_pallet plan \<and> carton_height_cm (product plan) \<le> limit) \<and>
      (\<forall>l \<in> set (st_remainder_layers st). \<exists>plan \<in> set (st_product_plans st).
         layer_height_cm l = carton_height_cm (product plan)) \<and>
      (\<forall>l \<in> set (st_remainder_layers st). layer_height_cm l \<le> limit) \<and>
      (\<exists>packed. pack_layers (st_remainder_layers st) limit = Inr packed))"
proof (intro conjI impI)
  show "calculate_palletization d \<noteq> Inl (ValueError Layer_height_exceeds_limit)"
    unfolding calculate_palletization_def
    apply (intro bindE_neq)
    subgoal by (rule load_products_Inl)
    subgoal by (rule load_pallet_Inl)
    subgoal by (rule resolve_container_height_Inl)
    subgoal by (rule goods_height_limit_Inl)
    subgoal by (rule plan_loop_Inl)
    subgoal for prods pal' ch' limit' st' e
      using planned_heights(4) [of pal' ch' limit' "allow_mixed_remainders d" prods st']
      by (auto simp: bindE_Inl_iff split: if_splits)
    subgoal by (simp add: Let_def)
    done
next
  assume "goods_height_limit pal ch = Inr limit \<and>
    plan_loop pal limit mixed ps initial_plan_state = Inr st"
  then have lim: "goods_height_limit pal ch = Inr limit"
    and loop: "plan_loop pal limit mixed ps initial_plan_state = Inr st"
    by simp_all
  show "\<forall>plan \<in> set (st_product_plans st).
         1 \<le> layers_per_pallet plan \<and> carton_height_cm (product plan) \<le> limit"
    using planned_heights(1) [OF lim loop] by blast
  show "\<forall>l \<in> set (st_remainder_layers st). \<exists>plan \<in> set (st_product_plans st).
         layer_height_cm l = carton_height_cm (product plan)"
    by (rule planned_heights(2) [OF lim loop])
  show "\<forall>l \<in> set (st_remainder_layers st). layer_height_cm l \<le> limit"
    by (rule planned_heights(3) [OF lim loop])
  show "\<exists>packed. pack_layers (st_remainder_layers st) limit = Inr packed"
    by (rule planned_heights(4) [OF lim loop])
qed

theorem layer_check_unreachable_witness:
  "goods_height_limit example_pallet 239 = Inr 180 \<and>
   plan_loop example_pallet 180 True [product example_plan_a, example_spec_b]
     initial_plan_state = Inr example_state \<and>
   list_all (\<lambda>l. layer_height_cm l \<le> 180) (st_remainder_layers example_state) \<and>
   (\<exists>packed. pack_layers (st_remainder_layers example_state) 180 = Inr packed)"
proof -
  have lim: "goods_height_limit example_pallet 239 = Inr 180"
    by code_simp
  have loop: "plan_loop example_pallet 180 True [product example_plan_a, example_spec_b]
     initial_plan_state = Inr example_state"
    by code_simp
  from layer_check_unreachable
    [of _ example_pallet 239 180 True "[product example_plan_a, example_spec_b]" example_state]
    lim loop
  have "(\<forall>l \<in> set (st_remainder_layers example_state). layer_height_cm l \<le> 180) \<and>
      (\<exists>packed. pack_layers (st_remainder_layers example_state) 180 = Inr packed)"
    by blast
  with lim loop show ?thesis by (simp add: list_all_iff)
qed

text \<open>
  Claim C9. In the result of a successful calculation, \<open>total_pallets\<close> is the sum of
  \<open>count\<close> over the emitted pallet details, \<open>volume_with_pallets_cbm\<close> is the sum over them of
  \<open>count * (pallet_length/100 * pallet_width/100) * (total_height_cm/100)\<close>, and both volumes
  in cubic feet are the CBM values multiplied by 35.3146667.
\<close>

theorem result_totals:
  assumes "calculate_palletization d = Inr r"
  shows "total_pallets r = (\<Sum>detail\<leftarrow>pallets r. count detail) \<and>
         (\<exists>pal. load_pallet (pallet d) = Inr pal \<and>
            volume_with_pallets_cbm r =
              (\<Sum>detail\<leftarrow>pallets r.
                 of_int (count detail) * ((length_cm pal / 100) * (width_cm pal / 100))
                   * (total_height_cm detail / 100))) \<and>
         volume_with_pallets_cuft r = volume_with_pallets_cbm r * (353146667 / 10000000) \<and>
         volume_without_pallets_cuft r = volume_without_pallets_cbm r * (353146667 / 10000000)"
proof -
  from calculate_palletization_Inr [OF assms] obtain prods pal ch limit st pals where
    pal: "load_pallet (pallet d) = Inr pal"
    and r: "pallets r = pals" "total_pallets r = sum_list (map count pals)"
      "volume_with_pallets_cbm r =
         volume_loop ((length_cm pal / 100) * (width_cm pal / 100)) pals 0"
    by auto
  have "volume_with_pallets_cbm r =
      (\<Sum>detail\<leftarrow>pallets r.
         of_int (count detail) * ((length_cm pal / 100) * (width_cm pal / 100))
           * (total_height_cm detail / 100))"
    by (simp add: r volume_loop_sum)
  with pal show ?thesis
    by (auto simp: r volume_with_pallets_cuft_def volume_without_pallets_cuft_def CUFT_PER_CBM_def)
qed

theorem result_totals_witness:
  "calculate_palletization (build_example_input True) = Inr example_result \<and>
   total_pallets example_result = (\<Sum>detail\<leftarrow>pallets example_result. count detail) \<and>
   volume_with_pallets_cuft example_result = (6867 / 1000) * (353146667 / 10000000)"
proof -
  have "volume_with_pallets_cbm example_result = 6867 / 1000"
    by (simp add: example_result_def)
  with result_totals [OF example_result_eq] example_result_eq show ?thesis by simp
qed

text \<open>
  Claim C10. In the result of a successful calculation, in either remainder mode, the cartons
  on the emitted pallets, \<open>count\<close> times the sum of \<open>cartons_by_product\<close> over all pallet
  details, add up to \<open>total_cartons\<close>, which is the sum of \<open>cartons_required\<close> over the
  loaded products, one plan each.
\<close>

theorem cartons_conserved:
  assumes "calculate_palletization d = Inr r"
  shows "(\<Sum>detail\<leftarrow>pallets r. count detail * sum_list (map snd (cartons_by_product detail)))
           = total_cartons r \<and>
         total_cartons r =
           (\<Sum>plan\<leftarrow>product_plans r.
              \<lceil>rat_of_int (order_quantity_pcs (product plan)) /
                rat_of_int (pcs_per_carton (product plan))\<rceil>) \<and>
         load_products (products d) = Inr (map product (product_plans r)) \<and>
         (\<forall>plan \<in> set (product_plans r).
            cartons_required (product plan) =
              Inr \<lceil>rat_of_int (order_quantity_pcs (product plan)) /
                    rat_of_int (pcs_per_carton (product plan))\<rceil>)"
proof -
  from calculate_palletization_Inr [OF assms] obtain prods pal ch limit st pals where
    prods: "load_products (products d) = Inr prods"
    and loop: "plan_loop pal limit (allow_mixed_remainders d) prods initial_plan_state = Inr st"
    and pals: "if allow_mixed_remainders d \<and> st_remainder_layers st \<noteq> []
      then \<exists>packed. pack_layers (st_remainder_layers st) limit = Inr packed \<and>
             pals = mixed_pallets pal 1 packed (st_pallets st)
      else pals = st_pallets st"
    and r: "product_plans r = st_product_plans st" "pallets r = pals"
      "total_cartons r = st_total_cartons st"
    by auto
  have cons: "conserved (allow_mixed_remainders d) st"
    by (rule plan_loop_conserved [OF loop])
  have req: "\<forall>plan \<in> set (product_plans r).
      cartons_required (product plan) =
        Inr (full_pallets plan * cartons_per_pallet plan + remainder_cartons plan)"
  proof
    fix plan assume "plan \<in> set (product_plans r)"
    from calculate_palletization_plans [OF assms this] obtain pal' limit' required where
      pp: "plan_product pal' limit' (product plan) = Inr (plan, required)" by blast
    show "cartons_required (product plan) =
        Inr (full_pallets plan * cartons_per_pallet plan + remainder_cartons plan)"
      using plan_product_facts(9) [OF pp] plan_product_balance(1) [OF pp] by simp
  qed
  then have ceil: "\<forall>plan \<in> set (product_plans r).
      full_pallets plan * cartons_per_pallet plan + remainder_cartons plan =
        \<lceil>rat_of_int (order_quantity_pcs (product plan)) /
          rat_of_int (pcs_per_carton (product plan))\<rceil>"
    by (simp add: cartons_required_Inr)
  have packed_sum: "sum_list (map pallet_cartons pals) = st_total_cartons st"
  proof (cases "allow_mixed_remainders d \<and> st_remainder_layers st \<noteq> []")
    case True
    with pals obtain packed where
      p: "pack_layers (st_remainder_layers st) limit = Inr packed"
      and m: "pals = mixed_pallets pal 1 packed (st_pallets st)" by auto
    have "sum_list (map cartons (concat packed)) = sum_list (map cartons (st_remainder_layers st))"
      by (simp add: pack_layers_concat [OF p] sum_sorted_desc)
    then show ?thesis using cons by (simp add: m mixed_pallets_cartons conserved_def)
  next
    case False
    with pals have "pals = st_pallets st" by simp
    moreover from False cons have "st_remainder_layers st = []" by (auto simp: conserved_def)
    ultimately show ?thesis using cons by (simp add: conserved_def)
  qed
  have a: "(\<Sum>detail\<leftarrow>pallets r. count detail * sum_list (map snd (cartons_by_product detail)))
           = total_cartons r"
    using packed_sum by (simp add: r pallet_cartons_def [abs_def])
  have "total_cartons r =
      (\<Sum>plan\<leftarrow>product_plans r.
         full_pallets plan * cartons_per_pallet plan + remainder_cartons plan)"
    using cons by (simp add: conserved_def r)
  also have "\<dots> = (\<Sum>plan\<leftarrow>product_plans r.
              \<lceil>rat_of_int (order_quantity_pcs (product plan)) /
                rat_of_int (pcs_per_carton (product plan))\<rceil>)"
    using ceil by (intro arg_cong [where f = sum_list] map_cong) auto
  finally have b: "total_cartons r =
           (\<Sum>plan\<leftarrow>product_plans r.
              \<lceil>rat_of_int (order_quantity_pcs (product plan)) /
                rat_of_int (pcs_per_carton (product plan))\<rceil>)" .
  have c: "load_products (products d) = Inr (map product (product_plans r))"
    using plan_loop_products [OF loop] prods by (simp add: r initial_plan_state_def)
  from a b c req ceil show ?thesis by simp
qed

theorem cartons_conserved_witness:
  "calculate_palletization (build_example_input True) = Inr example_result \<and>
   (\<Sum>detail\<leftarrow>pallets example_result.
      count detail * sum_list (map snd (cartons_by_product detail))) = 138 \<and>
   total_cartons example_result = 138"
proof -
  have "total_cartons example_result = 138"
    by (simp add: example_result_def)
  with cartons_conserved [OF example_result_eq] example_result_eq show ?thesis by simp
qed

text \<open>
  Claim C7. On the scenario of the test suite, with mixing enabled the calculation returns
  3 pallets, a volume with pallets of 6.867 CBM, a volume without pallets of 5.25512 CBM,
  and the plans (1 full pallet, 8 remainder cartons) and (1 full pallet, 22 remainder
  cartons); with mixing disabled it returns 4 pallets, among them the two remainder pallets
  labelled after the products.
\<close>

theorem example_scenario:
  "(case calculate_palletization (build_example_input True) of
      Inl e \<Rightarrow> False
    | Inr r \<Rightarrow>
        total_pallets r = 3 \<and>
        volume_with_pallets_cbm r = 6867 / 1000 \<and>
        volume_without_pallets_cbm r = 525512 / 100000 \<and>
        map full_pallets (product_plans r) = [1, 1] \<and>
        map remainder_cartons (product_plans r) = [8, 22]) \<and>
   (case calculate_palletization (build_example_input False) of
      Inl e \<Rightarrow> False
    | Inr r \<Rightarrow>
        total_pallets r = 4 \<and>
        ''999-00031 remainder pallet'' \<in> set (map label (pallets r)) \<and>
        ''999-00166 remainder pallet'' \<in> set (map label (pallets r)))"
  by code_simp

end
